theory Spec2Isabelle
  imports Main "HOL-Library.Word"
begin

section \<open>Incremental npz writer (src/npz.py)\<close>

text \<open>
  The module defines one class, \<^verbatim>\<open>IncrementalNpzWriter\<close>, on top of three
  collaborators of the Python standard library and of numpy:
  \<^verbatim>\<open>zipfile.ZipFile\<close>, \<^verbatim>\<open>io.BytesIO\<close> with \<^verbatim>\<open>shutil.copyfileobj\<close>, and
  \<^verbatim>\<open>np.save\<close>. The class is embedded method by method; the collaborators are
  embedded as far as the class calls them, following CPython 3.11 (\<^verbatim>\<open>zipfile.py\<close>,
  \<^verbatim>\<open>shutil.py\<close>). Objects live in an explicit store, a raised exception is the
  \<open>Inl\<close> branch of a result and carries the state the call leaves behind.
\<close>

subsection \<open>Values and exceptions\<close>

type_synonym byte = "8 word"

text \<open>
  The exceptions that the class and its collaborators raise. Messages are kept where
  two raises of one class have to be told apart (without the quotation marks of the
  original messages).
\<close>

datatype exn =
    AssertionError string
  | AttributeError string
  | ValueError string
  | KeyError string
  | RuntimeError string
  | FileExistsError
  | FileNotFoundError
  | OSError
  | UnsupportedOperation
  | EncodeError string

text \<open>\<^verbatim>\<open>data: typing.Union[np.ndarray, bytes]\<close>: an array (dtype, shape, raw elements) or a
  byte string.\<close>

datatype npdata =
    Ndarray string "nat list" "byte list"
  | RawBytes "byte list"

text \<open>
  \<^verbatim>\<open>np.save\<close> is the array encoder. The module treats it as a black box, and so does
  the embedding: an encoder is a function that yields the encoded byte stream or raises.
\<close>

type_synonym encoder = "npdata \<Rightarrow> exn + byte list"

subsection \<open>io.BytesIO\<close>

record bytesio =
  getvalue :: "byte list"
  pos :: nat

definition BytesIO :: bytesio where
  "BytesIO = \<lparr>getvalue = [], pos = 0\<rparr>"

text \<open>Writing overwrites from the current position, padding with zero bytes when the
  position is past the end, and advances the position.\<close>

definition BytesIO_write :: "bytesio \<Rightarrow> byte list \<Rightarrow> bytesio" where
  "BytesIO_write b bs =
     \<lparr>getvalue = take (pos b) (getvalue b) @ replicate (pos b - length (getvalue b)) 0
                   @ bs @ drop (pos b + length bs) (getvalue b),
      pos = pos b + length bs\<rparr>"

definition BytesIO_seek :: "bytesio \<Rightarrow> nat \<Rightarrow> bytesio" where
  "BytesIO_seek b n = b\<lparr>pos := n\<rparr>"

text \<open>\<^verbatim>\<open>read(n)\<close> returns at most \<open>n\<close> bytes from the current position and advances it
  by the number of bytes returned. The two halves of the effect are separate functions.\<close>

definition BytesIO_read :: "bytesio \<Rightarrow> nat \<Rightarrow> byte list" where
  "BytesIO_read b n = take n (drop (pos b) (getvalue b))"

definition BytesIO_advance :: "bytesio \<Rightarrow> nat \<Rightarrow> bytesio" where
  "BytesIO_advance b n = b\<lparr>pos := pos b + length (BytesIO_read b n)\<rparr>"

text \<open>\<^verbatim>\<open>np.save(cbuf, data)\<close>: the encoded stream is written to the buffer.\<close>

definition np_save :: "encoder \<Rightarrow> bytesio \<Rightarrow> npdata \<Rightarrow> exn + bytesio" where
  "np_save enc cbuf data =
     (case enc data of
        Inl e \<Rightarrow> Inl e
      | Inr bs \<Rightarrow> Inr (BytesIO_write cbuf bs))"

subsection \<open>zipfile.ZipFile\<close>

datatype zip_compression = ZIP_STORED | ZIP_DEFLATED

text \<open>
  The file object under an archive: a file of the disk, opened by name, or the wrapper
  \<^verbatim>\<open>_Tellable(None)\<close> that \<^verbatim>\<open>ZipFile(None, 'w')\<close> builds around no file at all.
\<close>

datatype fileobj = DiskFile string | Tellable_None

text \<open>A member of an archive: its name, its (uncompressed) content and whether its
  header was written in the ZIP64 format.\<close>

record zipentry =
  e_name :: string
  e_data :: "byte list"
  e_zip64 :: bool

text \<open>\<^verbatim>\<open>_ZipWriteFile\<close>, the writable handle of one member.\<close>

record zipwritefile =
  zw_name :: string
  zw_zip64 :: bool
  zw_written :: "byte list"

text \<open>
  A \<^verbatim>\<open>ZipFile\<close> object. \<open>zf_fp = None\<close> is \<^verbatim>\<open>self.fp is None\<close>, the archive is closed.
  \<open>zf_writing\<close> holds the member handle while \<^verbatim>\<open>self._writing\<close> is set.
  \<open>zf_fp_closes\<close> counts the calls of \<^verbatim>\<open>close()\<close> on the file of the disk.
  The object is always built with \<^verbatim>\<open>allowZip64=True\<close>, the default.
\<close>

record zipfile =
  zf_mode :: string
  zf_compression :: zip_compression
  zf_fp :: "fileobj option"
  zf_filelist :: "zipentry list"
  zf_didModify :: bool
  zf_writing :: "zipwritefile option"
  zf_fp_closes :: nat

text \<open>
  The world outside the writer: which archives the disk holds, whether the medium
  accepts writes (\<open>False\<close>: every write to a disk file raises \<^verbatim>\<open>OSError\<close>, as on a full
  disk), and the store of \<^verbatim>\<open>ZipFile\<close> objects. A reference to an object is its index
  in the store; the store only grows, so a reference that a writer holds stays valid
  (lemma \<open>constructed_step\<close>). An object that has lost its last reference stays in the
  store, in the state its finaliser left it in.
\<close>

record world =
  disk :: "string \<Rightarrow> zipentry list option"
  medium_ok :: bool
  heap :: "zipfile list"

definition ZIP64_LIMIT :: nat where
  "ZIP64_LIMIT = 2 ^ 31 - 1"

definition fp_write :: "bool \<Rightarrow> fileobj \<Rightarrow> exn option" where
  "fp_write ok f =
     (case f of
        DiskFile p \<Rightarrow> (if ok then None else Some OSError)
      | Tellable_None \<Rightarrow> Some (AttributeError ''write''))"

definition new_zipfile :: "string \<Rightarrow> zip_compression \<Rightarrow> fileobj \<Rightarrow> zipentry list \<Rightarrow> bool \<Rightarrow> zipfile" where
  "new_zipfile m c f es modified =
     \<lparr>zf_mode = m, zf_compression = c, zf_fp = Some f, zf_filelist = es,
      zf_didModify = modified, zf_writing = None, zf_fp_closes = 0\<rparr>"

text \<open>
  \<^verbatim>\<open>ZipFile(file, mode, compression)\<close>. With a file name: \<^verbatim>\<open>'r'\<close> needs the file,
  \<^verbatim>\<open>'w'\<close> creates or truncates it, \<^verbatim>\<open>'x'\<close> refuses an existing one, \<^verbatim>\<open>'a'\<close> reads the
  members of an existing archive and creates a missing one. With \<^verbatim>\<open>None\<close> for the file:
  the first \<^verbatim>\<open>seek\<close> of modes \<^verbatim>\<open>'r'\<close> and \<^verbatim>\<open>'a'\<close> raises, modes \<^verbatim>\<open>'w'\<close> and \<^verbatim>\<open>'x'\<close> wrap it.
  An object whose construction raises is not stored.
\<close>

definition ZipFile :: "(string \<Rightarrow> zipentry list option) \<Rightarrow> string option \<Rightarrow> string \<Rightarrow> zip_compression
    \<Rightarrow> exn + (zipfile \<times> (string \<Rightarrow> zipentry list option))" where
  "ZipFile d file m c =
     (if m \<noteq> ''r'' \<and> m \<noteq> ''w'' \<and> m \<noteq> ''x'' \<and> m \<noteq> ''a''
      then Inl (ValueError ''ZipFile requires mode r, w, x, or a'')
      else case file of
        None \<Rightarrow>
          (if m = ''w'' \<or> m = ''x''
           then Inr (new_zipfile m c Tellable_None [] True, d)
           else Inl (AttributeError ''seek''))
      | Some p \<Rightarrow>
          (if m = ''r'' then
             (case d p of
                None \<Rightarrow> Inl FileNotFoundError
              | Some es \<Rightarrow> Inr (new_zipfile m c (DiskFile p) es False, d))
           else if m = ''w'' then
             Inr (new_zipfile m c (DiskFile p) [] True, d(p \<mapsto> []))
           else if m = ''x'' then
             (case d p of
                Some es \<Rightarrow> Inl FileExistsError
              | None \<Rightarrow> Inr (new_zipfile m c (DiskFile p) [] True, d(p \<mapsto> [])))
           else
             (case d p of
                Some es \<Rightarrow> Inr (new_zipfile m c (DiskFile p) es False, d)
              | None \<Rightarrow> Inr (new_zipfile m c (DiskFile p) [] True, d(p \<mapsto> [])))))"

text \<open>
  The name \<^verbatim>\<open>ZipInfo(name)\<close> gives a member: the name is cut at the first NUL character,
  and a path separator other than \<^verbatim>\<open>/\<close> is turned into \<^verbatim>\<open>/\<close>. \<open>os_sep\<close> is that of
  POSIX. Strings are taken as their encoded bytes.
\<close>

definition os_sep :: char where
  "os_sep = CHR ''/''"

definition ZipInfo_filename :: "string \<Rightarrow> string" where
  "ZipInfo_filename name =
     (let filename = takeWhile (\<lambda>c. c \<noteq> CHR 0x00) name
      in if os_sep \<noteq> CHR ''/'' \<and> os_sep \<in> set filename
         then map (\<lambda>c. if c = os_sep then CHR ''/'' else c) filename
         else filename)"

text \<open>
  What \<^verbatim>\<open>ZipFile.open\<close> returns: the reader of an existing member (\<^verbatim>\<open>ZipExtFile\<close>) or
  the writer of a new one, which is kept in \<open>zf_writing\<close>.
\<close>

datatype channel = ZipExtFile | ZipWriteFile

text \<open>
  \<^verbatim>\<open>ZipFile.open(name, mode, force_zip64=...)\<close>. The member mode must be \<^verbatim>\<open>'r'\<close> or
  \<^verbatim>\<open>'w'\<close>; the archive must not be closed. Mode \<^verbatim>\<open>'r'\<close> looks the member up. Mode \<^verbatim>\<open>'w'\<close>
  is \<^verbatim>\<open>_open_to_write\<close>: no other member handle may be open, the archive itself must
  have been opened for writing, the archive counts as modified, the member header is
  written, and the handle is returned with \<open>zip64 = force_zip64\<close> (the size of a new
  member is not known yet). The member gets the name that \<^verbatim>\<open>ZipInfo\<close> makes of the
  name passed. The name field of a header holds at most 65535 bytes; the refusal of a
  longer name (\<^verbatim>\<open>struct.error\<close> from packing the header) is not part of this model.
\<close>

definition ZipFile_open :: "bool \<Rightarrow> zipfile \<Rightarrow> string \<Rightarrow> string \<Rightarrow> bool
    \<Rightarrow> (exn \<times> zipfile) + (channel \<times> zipfile)" where
  "ZipFile_open ok z name m force_zip64 =
     (if m \<noteq> ''r'' \<and> m \<noteq> ''w''
      then Inl (ValueError ''open() requires mode r or w'', z)
      else case zf_fp z of
        None \<Rightarrow> Inl (ValueError ''Attempt to use ZIP archive that was already closed'', z)
      | Some f \<Rightarrow>
          (if m = ''r'' then
             (if name \<notin> set (map e_name (zf_filelist z)) then Inl (KeyError name, z)
              else if zf_writing z \<noteq> None
              then Inl (ValueError ''Cannot read while a write handle is open'', z)
              else Inr (ZipExtFile, z))
           else if zf_writing z \<noteq> None
           then Inl (ValueError ''Cannot write while another write handle is open'', z)
           else if zf_mode z \<noteq> ''w'' \<and> zf_mode z \<noteq> ''x'' \<and> zf_mode z \<noteq> ''a''
           then Inl (ValueError ''write() requires mode w, x, or a'', z)
           else
             (case fp_write ok f of
                Some e \<Rightarrow> Inl (e, z\<lparr>zf_didModify := True\<rparr>)
              | None \<Rightarrow>
                  Inr (ZipWriteFile,
                       z\<lparr>zf_didModify := True,
                         zf_writing := Some \<lparr>zw_name = ZipInfo_filename name,
                                              zw_zip64 = force_zip64,
                                              zw_written = []\<rparr>\<rparr>))))"

text \<open>\<^verbatim>\<open>_ZipWriteFile.write(data)\<close>, on the member handle of the archive.\<close>

definition ZipWriteFile_write :: "bool \<Rightarrow> zipfile \<Rightarrow> byte list \<Rightarrow> exn + zipfile" where
  "ZipWriteFile_write ok z bs =
     (case zf_writing z of
        None \<Rightarrow> Inl (ValueError ''I/O operation on closed file.'')
      | Some h \<Rightarrow>
          (case zf_fp z of
             None \<Rightarrow> Inl (AttributeError ''write'')
           | Some f \<Rightarrow>
               (case fp_write ok f of
                  Some e \<Rightarrow> Inl e
                | None \<Rightarrow> Inr (z\<lparr>zf_writing := Some (h\<lparr>zw_written := zw_written h @ bs\<rparr>)\<rparr>))))"

text \<open>
  \<^verbatim>\<open>_ZipWriteFile.close()\<close>. A deflated member flushes its compressor first. Without
  ZIP64 a member larger than \<open>ZIP64_LIMIT\<close> is refused (for a deflated member the
  library applies the same test to the compressed size as well, which is not computed
  here). Then the final header is written and the member joins the archive's list.
  Whatever happens, the archive stops being in the writing state.
\<close>

definition ZipWriteFile_close :: "bool \<Rightarrow> zipfile \<Rightarrow> (exn \<times> zipfile) + zipfile" where
  "ZipWriteFile_close ok z =
     (case zf_writing z of
        None \<Rightarrow> Inr z
      | Some h \<Rightarrow>
          (let z' = z\<lparr>zf_writing := None\<rparr>;
               w = (case zf_fp z of None \<Rightarrow> Some (AttributeError ''write'')
                    | Some f \<Rightarrow> fp_write ok f)
           in case (if zf_compression z = ZIP_DEFLATED then w else None) of
                Some e \<Rightarrow> Inl (e, z')
              | None \<Rightarrow>
                  (if \<not> zw_zip64 h \<and> ZIP64_LIMIT < length (zw_written h)
                   then Inl (RuntimeError ''File size too large, try using force_zip64'', z')
                   else (case w of
                           Some e \<Rightarrow> Inl (e, z')
                         | None \<Rightarrow>
                             Inr (z'\<lparr>zf_filelist := zf_filelist z @
                                      [\<lparr>e_name = zw_name h, e_data = zw_written h,
                                        e_zip64 = zw_zip64 h\<rparr>]\<rparr>)))))"

text \<open>
  \<^verbatim>\<open>ZipFile.close()\<close>. A closed archive returns at once. An archive with an open member
  handle refuses. Otherwise the end records are written if the archive was modified,
  and in every case (\<^verbatim>\<open>finally\<close>) the file object is given up: \<^verbatim>\<open>_fpclose\<close> closes a
  file that the archive opened by name.
\<close>

definition fpclose :: "zipfile \<Rightarrow> fileobj \<Rightarrow> zipfile" where
  "fpclose z f =
     (case f of
        DiskFile p \<Rightarrow> z\<lparr>zf_fp := None, zf_fp_closes := zf_fp_closes z + 1\<rparr>
      | Tellable_None \<Rightarrow> z\<lparr>zf_fp := None\<rparr>)"

definition ZipFile_close :: "bool \<Rightarrow> zipfile \<Rightarrow> (exn \<times> zipfile) + zipfile" where
  "ZipFile_close ok z =
     (case zf_fp z of
        None \<Rightarrow> Inr z
      | Some f \<Rightarrow>
          (if zf_writing z \<noteq> None
           then Inl (ValueError ''Cannot close the ZIP file while a write handle is open'', z)
           else if (zf_mode z = ''w'' \<or> zf_mode z = ''x'' \<or> zf_mode z = ''a'') \<and> zf_didModify z
           then (case fp_write ok f of
                   Some e \<Rightarrow> Inl (e, fpclose z f)
                 | None \<Rightarrow> Inr (fpclose z f))
           else Inr (fpclose z f)))"

text \<open>\<^verbatim>\<open>ZipFile.__del__\<close>, the finaliser: it calls \<^verbatim>\<open>close()\<close>, and what that raises is
  ignored.\<close>

definition ZipFile_del :: "bool \<Rightarrow> zipfile \<Rightarrow> zipfile" where
  "ZipFile_del ok z = (case ZipFile_close ok z of Inl (e, z') \<Rightarrow> z' | Inr z' \<Rightarrow> z')"

subsection \<open>shutil.copyfileobj\<close>

text \<open>The chunk size outside Windows (there it is \<open>1024 * 1024\<close>); what is copied does not
  depend on it (lemma \<open>copy_loop_all\<close>).\<close>

definition COPY_BUFSIZE :: nat where
  "COPY_BUFSIZE = 64 * 1024"

text \<open>
  The loop of \<^verbatim>\<open>copyfileobj\<close> into a member writer: read a chunk, stop at an empty
  one, write it.
\<close>

function copy_loop :: "bool \<Rightarrow> bytesio \<Rightarrow> zipfile \<Rightarrow> nat \<Rightarrow> (exn \<times> zipfile) + zipfile" where
  "copy_loop ok fsrc z n =
     (if BytesIO_read fsrc n = [] then Inr z
      else case ZipWriteFile_write ok z (BytesIO_read fsrc n) of
             Inl e \<Rightarrow> Inl (e, z)
           | Inr z' \<Rightarrow> copy_loop ok (BytesIO_advance fsrc n) z' n)"
  by pat_completeness auto
termination
  by (relation "measure (\<lambda>(ok, fsrc, z, n). length (getvalue fsrc) - pos fsrc)")
     (auto simp: BytesIO_read_def BytesIO_advance_def)

declare copy_loop.simps [simp del]

text \<open>
  \<^verbatim>\<open>copyfileobj(fsrc, fdst, length=0)\<close>. A length of 0 means \<open>COPY_BUFSIZE\<close>. A member
  reader does not support \<^verbatim>\<open>write\<close>: the first chunk that is not empty raises.
\<close>

definition copyfileobj :: "bool \<Rightarrow> bytesio \<Rightarrow> channel \<Rightarrow> zipfile \<Rightarrow> nat \<Rightarrow> (exn \<times> zipfile) + zipfile" where
  "copyfileobj ok fsrc fdst z len =
     (let n = (if len = 0 then COPY_BUFSIZE else len)
      in case fdst of
           ZipWriteFile \<Rightarrow> copy_loop ok fsrc z n
         | ZipExtFile \<Rightarrow>
             (if BytesIO_read fsrc n = [] then Inr z else Inl (UnsupportedOperation, z)))"

text \<open>Leaving the \<^verbatim>\<open>with\<close> block of a member handle closes it.\<close>

definition channel_exit :: "bool \<Rightarrow> channel \<Rightarrow> zipfile \<Rightarrow> (exn \<times> zipfile) + zipfile" where
  "channel_exit ok ch z =
     (case ch of
        ZipWriteFile \<Rightarrow> ZipWriteFile_close ok z
      | ZipExtFile \<Rightarrow> Inr z)"

subsection \<open>The class IncrementalNpzWriter\<close>

record writer =
  compression :: zip_compression
  tofile :: "string option"
  mode :: string
  "file" :: "nat option"

text \<open>A method call returns the object and the world as it leaves them, on the right
  when it returns, on the left with the exception when it raises.\<close>

type_synonym result = "(exn \<times> writer \<times> world) + (writer \<times> world)"

text \<open>Python's \<^verbatim>\<open>s in t\<close> on strings: \<open>s\<close> occurs in \<open>t\<close> as a contiguous substring.\<close>

fun str_in :: "string \<Rightarrow> string \<Rightarrow> bool" where
  "str_in s [] = (s = [])"
| "str_in s (c # cs) = (take (length s) (c # cs) = s \<or> str_in s cs)"

text \<open>\<^verbatim>\<open>__init__(self, tofile, mode='x', compress_file=False)\<close>, assertions enabled.\<close>

definition init :: "string \<Rightarrow> string \<Rightarrow> bool \<Rightarrow> exn + writer" where
  "init tofile' mode' compress_file =
     (if \<not> str_in mode' ''xwa'' then Inl (AssertionError mode')
      else Inr \<lparr>compression = (if compress_file then ZIP_DEFLATED else ZIP_STORED),
                tofile = Some tofile',
                mode = mode',
                file = None\<rparr>)"

text \<open>
  \<^verbatim>\<open>openFile\<close>: the new archive object is stored and \<^verbatim>\<open>self.file\<close> refers to it. The
  archive that \<^verbatim>\<open>self.file\<close> referred to before loses its reference with the assignment.
  The class hands that reference to nobody, so it was the only one, and CPython
  finalises the object at once, after the new archive has been opened.
\<close>

definition openFile :: "writer \<Rightarrow> world \<Rightarrow> result" where
  "openFile self \<sigma> =
     (case ZipFile (disk \<sigma>) (tofile self) (mode self) (compression self) of
        Inl e \<Rightarrow> Inl (e, self, \<sigma>)
      | Inr (z, d) \<Rightarrow>
          Inr (self\<lparr>file := Some (length (heap \<sigma>))\<rparr>,
               \<sigma>\<lparr>disk := d,
                 heap := (case file self of
                            None \<Rightarrow> heap \<sigma>
                          | Some r \<Rightarrow> (heap \<sigma>)[r := ZipFile_del (medium_ok \<sigma>) (heap \<sigma> ! r)])
                         @ [z]\<rparr>))"

text \<open>
  Modelled from the spec: the decorator \<^verbatim>\<open>timing\<close> comes from the module
  \<^verbatim>\<open>decorator\<close>, which is not among the sources. The specification describes it as an
  instrumentation wrapper that measures the call and is orthogonal to correctness:
  the decorated function behaves as the function itself.
\<close>

definition timing :: "bool \<Rightarrow> 'f \<Rightarrow> 'f" where
  "timing print_args f = f"

text \<open>
  \<^verbatim>\<open>write(self, key, data)\<close>. The two \<^verbatim>\<open>with\<close> blocks are written out: the buffer is
  local and dropped; the member handle is closed on the way out whether the copy
  returned or raised, and an exception of that close replaces the one of the copy.
\<close>

definition write_body :: "encoder \<Rightarrow> writer \<Rightarrow> world \<Rightarrow> string \<Rightarrow> npdata \<Rightarrow> result" where
  "write_body enc self \<sigma> key data =
     (let key = key @ ''.npy'' in
      case np_save enc BytesIO data of
        Inl e \<Rightarrow> Inl (e, self, \<sigma>)
      | Inr cbuf0 \<Rightarrow>
          (let cbuf = BytesIO_seek cbuf0 0 in
           case file self of
             None \<Rightarrow> Inl (AttributeError ''open'', self, \<sigma>)
           | Some r \<Rightarrow>
               (case ZipFile_open (medium_ok \<sigma>) (heap \<sigma> ! r) key (mode self) True of
                  Inl (e, z) \<Rightarrow> Inl (e, self, \<sigma>\<lparr>heap := (heap \<sigma>)[r := z]\<rparr>)
                | Inr (outfile, z) \<Rightarrow>
                    (case copyfileobj (medium_ok \<sigma>) cbuf outfile z 0 of
                       Inl (e, z1) \<Rightarrow>
                         (case channel_exit (medium_ok \<sigma>) outfile z1 of
                            Inl (e', z2) \<Rightarrow> Inl (e', self, \<sigma>\<lparr>heap := (heap \<sigma>)[r := z2]\<rparr>)
                          | Inr z2 \<Rightarrow> Inl (e, self, \<sigma>\<lparr>heap := (heap \<sigma>)[r := z2]\<rparr>))
                     | Inr z1 \<Rightarrow>
                         (case channel_exit (medium_ok \<sigma>) outfile z1 of
                            Inl (e', z2) \<Rightarrow> Inl (e', self, \<sigma>\<lparr>heap := (heap \<sigma>)[r := z2]\<rparr>)
                          | Inr z2 \<Rightarrow> Inr (self, \<sigma>\<lparr>heap := (heap \<sigma>)[r := z2]\<rparr>))))))"

definition "write" :: "encoder \<Rightarrow> writer \<Rightarrow> world \<Rightarrow> string \<Rightarrow> npdata \<Rightarrow> result" where
  "write enc = timing False (write_body enc)"

text \<open>\<^verbatim>\<open>close\<close>: guarded by \<^verbatim>\<open>self.tofile is not None\<close>; \<^verbatim>\<open>self.file.close()\<close> on
  \<^verbatim>\<open>None\<close> is an \<^verbatim>\<open>AttributeError\<close>; \<^verbatim>\<open>self.tofile = None\<close> runs only when the archive's
  close has returned.\<close>

definition close :: "writer \<Rightarrow> world \<Rightarrow> result" where
  "close self \<sigma> =
     (if tofile self \<noteq> None then
        (case file self of
           None \<Rightarrow> Inl (AttributeError ''close'', self, \<sigma>)
         | Some r \<Rightarrow>
             (case ZipFile_close (medium_ok \<sigma>) (heap \<sigma> ! r) of
                Inl (e, z) \<Rightarrow> Inl (e, self, \<sigma>\<lparr>heap := (heap \<sigma>)[r := z]\<rparr>)
              | Inr z \<Rightarrow> Inr (self\<lparr>tofile := None\<rparr>, \<sigma>\<lparr>heap := (heap \<sigma>)[r := z]\<rparr>)))
      else Inr (self, \<sigma>))"

text \<open>\<^verbatim>\<open>__enter__\<close> opens and returns \<^verbatim>\<open>self\<close>; \<^verbatim>\<open>__exit__\<close> ignores the exception it is
  told about, closes and returns \<^verbatim>\<open>None\<close>.\<close>

definition enter :: "writer \<Rightarrow> world \<Rightarrow> result" where
  "enter self \<sigma> = openFile self \<sigma>"

definition exit :: "writer \<Rightarrow> world \<Rightarrow> exn option \<Rightarrow> result" where
  "exit self \<sigma> exc = close self \<sigma>"

text \<open>
  The statement \<^verbatim>\<open>with mgr as w: body\<close>, as the language defines it: \<^verbatim>\<open>__enter__\<close>,
  the body, then \<^verbatim>\<open>__exit__\<close> on both ways out. \<^verbatim>\<open>__exit__\<close> returns \<^verbatim>\<open>None\<close>, so an
  exception of the body is raised again after it, unless \<^verbatim>\<open>__exit__\<close> itself raised.
  When \<^verbatim>\<open>__enter__\<close> raises, the body and \<^verbatim>\<open>__exit__\<close> do not run.
\<close>

definition with_writer :: "writer \<Rightarrow> world \<Rightarrow> (writer \<Rightarrow> world \<Rightarrow> result) \<Rightarrow> result" where
  "with_writer mgr \<sigma> body =
     (case enter mgr \<sigma> of
        Inl x \<Rightarrow> Inl x
      | Inr (self, \<sigma>1) \<Rightarrow>
          (case body self \<sigma>1 of
             Inl (e, self2, \<sigma>2) \<Rightarrow>
               (case exit self2 \<sigma>2 (Some e) of
                  Inl x \<Rightarrow> Inl x
                | Inr (self3, \<sigma>3) \<Rightarrow> Inl (e, self3, \<sigma>3))
           | Inr (self2, \<sigma>2) \<Rightarrow> exit self2 \<sigma>2 None))"

text \<open>A block that appends one array after the other, as the module's own main block
  does; the first call that raises ends it.\<close>

fun writes :: "encoder \<Rightarrow> (string \<times> npdata) list \<Rightarrow> writer \<Rightarrow> world \<Rightarrow> result" where
  "writes enc [] self \<sigma> = Inr (self, \<sigma>)"
| "writes enc ((key, data) # rest) self \<sigma> =
     (case write enc self \<sigma> key data of
        Inl x \<Rightarrow> Inl x
      | Inr (self', \<sigma>') \<Rightarrow> writes enc rest self' \<sigma>')"

subsection \<open>Sequences of calls on one writer\<close>

text \<open>
  A caller may call the methods in any order and may catch what they raise. \<open>Medium\<close>
  is a step of the environment: the medium starts or stops accepting writes.
\<close>

datatype call = OpenFile | Write string npdata | Close | Medium bool

text \<open>The state a call leaves behind, whether it returned or raised.\<close>

definition after :: "(exn \<times> 's) + 's \<Rightarrow> 's" where
  "after res = (case res of Inl (e, s) \<Rightarrow> s | Inr s \<Rightarrow> s)"

fun step :: "encoder \<Rightarrow> writer \<times> world \<Rightarrow> call \<Rightarrow> writer \<times> world" where
  "step enc (self, \<sigma>) OpenFile = after (openFile self \<sigma>)"
| "step enc (self, \<sigma>) (Write key data) = after (write enc self \<sigma> key data)"
| "step enc (self, \<sigma>) Close = after (close self \<sigma>)"
| "step enc (self, \<sigma>) (Medium b) = (self, \<sigma>\<lparr>medium_ok := b\<rparr>)"

definition run :: "encoder \<Rightarrow> writer \<times> world \<Rightarrow> call list \<Rightarrow> writer \<times> world" where
  "run enc s cs = foldl (step enc) s cs"

text \<open>The archives of the store that are open, and the state between two calls of a
  writer that has been opened: the path is set, \<^verbatim>\<open>self.file\<close> refers to an archive of
  the store that is open on a disk file, and no member handle is open.\<close>

definition open_handles :: "world \<Rightarrow> nat" where
  "open_handles \<sigma> = length (filter (\<lambda>z. zf_fp z \<noteq> None) (heap \<sigma>))"

definition opened :: "writer \<Rightarrow> world \<Rightarrow> bool" where
  "opened self \<sigma> =
     (tofile self \<noteq> None \<and>
      (case file self of
         None \<Rightarrow> False
       | Some r \<Rightarrow>
           r < length (heap \<sigma>) \<and>
           (case zf_fp (heap \<sigma> ! r) of Some (DiskFile p) \<Rightarrow> True | _ \<Rightarrow> False) \<and>
           zf_mode (heap \<sigma> ! r) = mode self \<and>
           zf_writing (heap \<sigma> ! r) = None))"

text \<open>What a constructed writer keeps through every call: its mode passed the
  assertion of the constructor, and \<^verbatim>\<open>self.file\<close> is \<^verbatim>\<open>None\<close> or refers to an object
  of the store.\<close>

definition constructed :: "writer \<Rightarrow> world \<Rightarrow> bool" where
  "constructed self \<sigma> =
     (str_in (mode self) ''xwa'' \<and>
      (case file self of None \<Rightarrow> True | Some r \<Rightarrow> r < length (heap \<sigma>)))"


text \<open>Two states of one archive object that agree on the file under it.\<close>

definition same_file :: "zipfile \<Rightarrow> zipfile \<Rightarrow> bool" where
  "same_file z z' =
     (zf_fp z' = zf_fp z \<and> zf_fp_closes z' = zf_fp_closes z \<and>
      zf_mode z' = zf_mode z \<and> zf_compression z' = zf_compression z)"

subsection \<open>Example states\<close>

text \<open>A world with an empty disk, a working medium and an empty store.\<close>

definition fresh :: world where
  "fresh = \<lparr>disk = (\<lambda>p. None), medium_ok = True, heap = []\<rparr>"

text \<open>A stand-in for the encoder in examples: the magic string of the \<^verbatim>\<open>.npy\<close> format
  followed by the raw bytes; an array without a dtype is refused.\<close>

definition sample_encoder :: encoder where
  "sample_encoder d =
     (case d of
        Ndarray dtype shape bs \<Rightarrow>
          (if dtype = [] then Inl (EncodeError ''dtype'')
           else Inr ([0x93, 0x4E, 0x55, 0x4D, 0x50, 0x59] @ bs))
      | RawBytes bs \<Rightarrow> Inr ([0x93, 0x4E, 0x55, 0x4D, 0x50, 0x59] @ bs))"

text \<open>The writer of the module's main block, \<^verbatim>\<open>IncrementalNpzWriter('test.npz', 'w')\<close>,
  before and after \<^verbatim>\<open>openFile\<close> in the fresh world; and the same with the default
  mode \<^verbatim>\<open>'x'\<close> and with mode \<^verbatim>\<open>'a'\<close>.\<close>

definition new_writer :: "string \<Rightarrow> writer" where
  "new_writer m = \<lparr>compression = ZIP_STORED, tofile = Some ''test.npz'', mode = m, file = None\<rparr>"

definition open_writer :: "string \<Rightarrow> writer" where
  "open_writer m = \<lparr>compression = ZIP_STORED, tofile = Some ''test.npz'', mode = m, file = Some 0\<rparr>"

definition open_world :: "string \<Rightarrow> world" where
  "open_world m =
     \<lparr>disk = (\<lambda>p. if p = ''test.npz'' then Some [] else None),
      medium_ok = True,
      heap = [new_zipfile m ZIP_STORED (DiskFile ''test.npz'') [] True]\<rparr>"

section \<open>Properties\<close>

subsection \<open>Supporting lemmas\<close>

text \<open>The strings that the substring test of the constructor lets through.\<close>

lemma str_in_xwa:
  "str_in m ''xwa'' \<longleftrightarrow> m \<in> {'''', ''x'', ''w'', ''a'', ''xw'', ''wa'', ''xwa''}"
proof (cases m)
  case Nil
  then show ?thesis by simp
next
  case (Cons a m1)
  show ?thesis
  proof (cases m1)
    case Nil
    with Cons show ?thesis by auto
  next
    case (Cons b m2)
    note c2 = this
    show ?thesis
    proof (cases m2)
      case Nil
      with c2 \<open>m = a # m1\<close> show ?thesis by auto
    next
      case (Cons c m3)
      with c2 \<open>m = a # m1\<close> show ?thesis by (cases m3) auto
    qed
  qed
qed

text \<open>The copy loop moves everything from the position of the buffer to its end into
  the member, whatever the chunk size.\<close>

lemma copy_loop_all:
  assumes "0 < n" and "zf_writing z = Some h" and "zf_fp z = Some (DiskFile p)"
  shows "copy_loop True fsrc z n =
         Inr (z\<lparr>zf_writing := Some (h\<lparr>zw_written := zw_written h @ drop (pos fsrc) (getvalue fsrc)\<rparr>)\<rparr>)"
  using assms
proof (induction True fsrc z n arbitrary: h rule: copy_loop.induct)
  case (1 fsrc z n)
  show ?case
  proof (cases "BytesIO_read fsrc n = []")
    case True
    with 1(2) have "drop (pos fsrc) (getvalue fsrc) = []"
      by (simp add: BytesIO_read_def)
    with True 1(3) show ?thesis
      by (subst copy_loop.simps) simp
  next
    case False
    let ?z' = "z\<lparr>zf_writing := Some (h\<lparr>zw_written := zw_written h @ BytesIO_read fsrc n\<rparr>)\<rparr>"
    have w: "ZipWriteFile_write True z (BytesIO_read fsrc n) = Inr ?z'"
      using 1(3,4) by (simp add: ZipWriteFile_write_def fp_write_def)
    have "copy_loop True (BytesIO_advance fsrc n) ?z' n =
          Inr (?z'\<lparr>zf_writing := Some ((h\<lparr>zw_written := zw_written h @ BytesIO_read fsrc n\<rparr>)
             \<lparr>zw_written := zw_written (h\<lparr>zw_written := zw_written h @ BytesIO_read fsrc n\<rparr>)
                 @ drop (pos (BytesIO_advance fsrc n)) (getvalue (BytesIO_advance fsrc n))\<rparr>)\<rparr>)"
      using 1(1)[OF False w 1(2)] 1(4) by simp
    moreover have "BytesIO_read fsrc n @ drop (pos (BytesIO_advance fsrc n)) (getvalue (BytesIO_advance fsrc n))
        = drop (pos fsrc) (getvalue fsrc)"
      by (simp add: BytesIO_read_def BytesIO_advance_def min_def drop_take add.commute
          flip: drop_drop) (metis append_take_drop_id drop_drop add.commute)
    ultimately show ?thesis
      using False w by (subst copy_loop.simps) simp
  qed
qed

lemma np_save_BytesIO:
  "np_save enc BytesIO data = (case enc data of Inl e \<Rightarrow> Inl e | Inr bs \<Rightarrow> Inr \<lparr>getvalue = bs, pos = length bs\<rparr>)"
  by (simp add: np_save_def BytesIO_def BytesIO_write_def split: sum.splits)

text \<open>A name without a NUL character is kept as it is.\<close>

lemma ZipInfo_filename_plain: "CHR 0x00 \<notin> set name \<Longrightarrow> ZipInfo_filename name = name"
  by (auto simp: ZipInfo_filename_def os_sep_def takeWhile_eq_all_conv)

text \<open>When \<^verbatim>\<open>write\<close> returns, and what it has done then.\<close>

lemma write_ok_core:
  assumes "file self = Some r" and "mode self = ''w''" and "medium_ok \<sigma>"
    and "enc data = Inr bs"
    and fp: "zf_fp (heap \<sigma> ! r) = Some (DiskFile p)" and wr: "zf_writing (heap \<sigma> ! r) = None"
    and zm: "zf_mode (heap \<sigma> ! r) = ''w'' \<or> zf_mode (heap \<sigma> ! r) = ''x'' \<or> zf_mode (heap \<sigma> ! r) = ''a''"
  shows "write enc self \<sigma> key data =
     Inr (self, \<sigma>\<lparr>heap := (heap \<sigma>)[r := (heap \<sigma> ! r)
        \<lparr>zf_filelist := zf_filelist (heap \<sigma> ! r) @
            [\<lparr>e_name = ZipInfo_filename (key @ ''.npy''), e_data = bs, e_zip64 = True\<rparr>],
         zf_didModify := True\<rparr>]\<rparr>)"
proof -
  let ?z = "heap \<sigma> ! r"
  let ?h = "\<lparr>zw_name = ZipInfo_filename (key @ ''.npy''), zw_zip64 = True, zw_written = []\<rparr>"
  let ?z1 = "?z\<lparr>zf_didModify := True, zf_writing := Some ?h\<rparr>"
  have o: "ZipFile_open (medium_ok \<sigma>) ?z (key @ ''.npy'') (mode self) True = Inr (ZipWriteFile, ?z1)"
    using fp wr zm assms(2,3) by (auto simp: ZipFile_open_def fp_write_def)
  have c: "copyfileobj (medium_ok \<sigma>) \<lparr>getvalue = bs, pos = 0\<rparr> ZipWriteFile ?z1 0 =
      Inr (?z1\<lparr>zf_writing := Some (?h\<lparr>zw_written := bs\<rparr>)\<rparr>)"
    using copy_loop_all[of COPY_BUFSIZE ?z1 ?h p "\<lparr>getvalue = bs, pos = 0\<rparr>"] fp assms(3)
    by (simp add: copyfileobj_def COPY_BUFSIZE_def)
  have x: "channel_exit (medium_ok \<sigma>) ZipWriteFile (?z1\<lparr>zf_writing := Some (?h\<lparr>zw_written := bs\<rparr>)\<rparr>) =
      Inr (?z\<lparr>zf_filelist := zf_filelist ?z @ [\<lparr>e_name = ZipInfo_filename (key @ ''.npy''), e_data = bs, e_zip64 = True\<rparr>],
             zf_didModify := True\<rparr>)"
    using fp wr assms(3) by (simp add: channel_exit_def ZipWriteFile_close_def fp_write_def)
  show ?thesis
    using o c x assms(1,4)
    by (simp add: write_def timing_def write_body_def np_save_BytesIO BytesIO_seek_def)
qed

lemma write_w_ok:
  assumes "opened self \<sigma>" and "mode self = ''w''" and "medium_ok \<sigma>"
    and "enc data = Inr bs" and "file self = Some r"
  shows "write enc self \<sigma> key data =
     Inr (self, \<sigma>\<lparr>heap := (heap \<sigma>)[r := (heap \<sigma> ! r)
        \<lparr>zf_filelist := zf_filelist (heap \<sigma> ! r) @
            [\<lparr>e_name = ZipInfo_filename (key @ ''.npy''), e_data = bs, e_zip64 = True\<rparr>],
         zf_didModify := True\<rparr>]\<rparr>)"
proof -
  from assms obtain p where "zf_fp (heap \<sigma> ! r) = Some (DiskFile p)"
    and "zf_writing (heap \<sigma> ! r) = None" and "zf_mode (heap \<sigma> ! r) = ''w''"
    by (auto simp: opened_def split: option.splits fileobj.splits)
  then show ?thesis
    using assms by (intro write_ok_core) auto
qed

lemma ZipFile_open_InrD:
  assumes "ZipFile_open ok z name m fz = Inr (ch, z1)" and "m \<noteq> ''r''"
  shows "m = ''w'' \<and> ok \<and> (\<exists>p. zf_fp z = Some (DiskFile p)) \<and> zf_writing z = None \<and>
         (zf_mode z = ''w'' \<or> zf_mode z = ''x'' \<or> zf_mode z = ''a'')"
  using assms
  by (auto simp: ZipFile_open_def fp_write_def split: if_splits option.splits fileobj.splits)

lemma write_InrD:
  assumes "write enc self \<sigma> key data = Inr (self', \<sigma>')" and "mode self \<noteq> ''r''"
  shows "\<exists>r bs p. file self = Some r \<and> enc data = Inr bs \<and> mode self = ''w'' \<and> medium_ok \<sigma> \<and>
           zf_fp (heap \<sigma> ! r) = Some (DiskFile p) \<and> zf_writing (heap \<sigma> ! r) = None \<and>
           (zf_mode (heap \<sigma> ! r) = ''w'' \<or> zf_mode (heap \<sigma> ! r) = ''x'' \<or> zf_mode (heap \<sigma> ! r) = ''a'')"
proof -
  from assms(1) obtain bs where e: "enc data = Inr bs"
    by (auto simp: write_def timing_def write_body_def np_save_def split: sum.splits)
  from assms(1) e obtain r where r: "file self = Some r"
    by (auto simp: write_def timing_def write_body_def np_save_def split: option.splits)
  from assms(1) e r obtain ch z1 where
    "ZipFile_open (medium_ok \<sigma>) (heap \<sigma> ! r) (key @ ''.npy'') (mode self) True = Inr (ch, z1)"
    by (auto simp: write_def timing_def write_body_def np_save_def split: sum.splits)
  from ZipFile_open_InrD[OF this assms(2)] e r show ?thesis by blast
qed

lemma write_Inr_result:
  assumes "write enc self \<sigma> key data = Inr (self', \<sigma>')" and "mode self \<noteq> ''r''"
  shows "\<exists>r bs. file self = Some r \<and> enc data = Inr bs \<and> self' = self \<and>
           \<sigma>' = \<sigma>\<lparr>heap := (heap \<sigma>)[r := (heap \<sigma> ! r)
              \<lparr>zf_filelist := zf_filelist (heap \<sigma> ! r) @
                  [\<lparr>e_name = ZipInfo_filename (key @ ''.npy''), e_data = bs, e_zip64 = True\<rparr>],
               zf_didModify := True\<rparr>]\<rparr>"
proof -
  from write_InrD[OF assms] obtain r bs p where h: "file self = Some r" "enc data = Inr bs"
    "mode self = ''w''" "medium_ok \<sigma>" "zf_fp (heap \<sigma> ! r) = Some (DiskFile p)"
    "zf_writing (heap \<sigma> ! r) = None"
    "zf_mode (heap \<sigma> ! r) = ''w'' \<or> zf_mode (heap \<sigma> ! r) = ''x'' \<or> zf_mode (heap \<sigma> ! r) = ''a''"
    by blast
  from write_ok_core[of self r \<sigma> enc data bs p key] h assms(1) show ?thesis by auto
qed

lemma constructed_not_r: "constructed self \<sigma> \<Longrightarrow> mode self \<noteq> ''r''"
  by (auto simp: constructed_def str_in_xwa)

lemma write_mode_x_a_raises:
  assumes "mode self = ''x'' \<or> mode self = ''a''" and "enc data = Inr bs" and "file self = Some r"
  shows "write enc self \<sigma> key data = Inl (ValueError ''open() requires mode r or w'', self, \<sigma>)"
  using assms
  by (auto simp: write_def timing_def write_body_def np_save_def ZipFile_open_def)

lemma init_Inr_iff:
  "(\<exists>self. init t m c = Inr self) \<longleftrightarrow> m \<in> {'''', ''x'', ''w'', ''a'', ''xw'', ''wa'', ''xwa''}"
  unfolding str_in_xwa[symmetric] by (simp add: init_def)

text \<open>The example states are the ones the constructor and \<^verbatim>\<open>openFile\<close> produce.\<close>

lemma init_new_writer:
  "init ''test.npz'' m False = (if str_in m ''xwa'' then Inr (new_writer m) else Inl (AssertionError m))"
  by (simp add: init_def new_writer_def)

lemma openFile_new_writer:
  "m = ''w'' \<or> m = ''x'' \<or> m = ''a'' \<Longrightarrow>
   openFile (new_writer m) fresh = Inr (open_writer m, open_world m)"
  by (auto simp: openFile_def new_writer_def fresh_def ZipFile_def open_writer_def
      open_world_def fun_upd_def)

lemma opened_example:
  "m = ''w'' \<or> m = ''x'' \<or> m = ''a'' \<Longrightarrow> opened (open_writer m) (open_world m)"
  by (auto simp: opened_def open_writer_def open_world_def new_zipfile_def)

lemma opened_D:
  assumes "opened self \<sigma>" and "file self = Some r"
  shows "tofile self \<noteq> None" and "r < length (heap \<sigma>)"
    and "\<exists>p. zf_fp (heap \<sigma> ! r) = Some (DiskFile p)"
    and "zf_mode (heap \<sigma> ! r) = mode self" and "zf_writing (heap \<sigma> ! r) = None"
  using assms by (auto simp: opened_def split: option.splits fileobj.splits)

lemma opened_medium: "opened self (\<sigma>\<lparr>medium_ok := b\<rparr>) = opened self \<sigma>"
  by (simp add: opened_def split: option.splits)

lemma write_encoder_raises:
  "enc data = Inl e \<Longrightarrow> write enc self \<sigma> key data = Inl (e, self, \<sigma>)"
  by (simp add: write_def timing_def write_body_def np_save_def)

lemma ZipWriteFile_close_no_zip64:
  assumes "zf_writing z = Some h" and "\<not> zw_zip64 h" and "ZIP64_LIMIT < length (zw_written h)"
    and "zf_fp z = Some (DiskFile p)"
  shows "ZipWriteFile_close True z =
           Inl (RuntimeError ''File size too large, try using force_zip64'', z\<lparr>zf_writing := None\<rparr>)"
  using assms by (simp add: ZipWriteFile_close_def fp_write_def)

text \<open>What a call of \<^verbatim>\<open>write\<close> leaves alone, returning or raising: the writer, every
  other object of the store, and the file under its own archive.\<close>

lemma after_simps [simp]: "after (Inl (e, s)) = s" "after (Inr s) = s"
  by (simp_all add: after_def)

lemma same_file_refl [simp]: "same_file z z"
  by (simp add: same_file_def)

lemma same_file_trans: "same_file a b \<Longrightarrow> same_file b c \<Longrightarrow> same_file a c"
  by (simp add: same_file_def)

lemma ZipFile_open_Inl_frame:
  "ZipFile_open ok z name m fz = Inl (e, z') \<Longrightarrow> same_file z z' \<and> zf_writing z' = zf_writing z"
  by (auto simp: ZipFile_open_def same_file_def split: if_splits option.splits)

lemma ZipFile_open_Inr_frame:
  "ZipFile_open ok z name m fz = Inr (ch, z') \<Longrightarrow>
     same_file z z' \<and> (case ch of ZipExtFile \<Rightarrow> z' = z | ZipWriteFile \<Rightarrow> True)"
  by (auto simp: ZipFile_open_def same_file_def split: if_splits option.splits)

lemma ZipWriteFile_write_same: "ZipWriteFile_write ok z bs = Inr z' \<Longrightarrow> same_file z z'"
  by (auto simp: ZipWriteFile_write_def same_file_def split: option.splits)

lemma copy_loop_same: "same_file z (after (copy_loop ok fsrc z n))"
proof (induction ok fsrc z n rule: copy_loop.induct)
  case (1 ok fsrc z n)
  show ?case
  proof (cases "BytesIO_read fsrc n = []")
    case True
    then show ?thesis by (subst copy_loop.simps) simp
  next
    case False
    show ?thesis
    proof (cases "ZipWriteFile_write ok z (BytesIO_read fsrc n)")
      case (Inl e)
      with False show ?thesis by (subst copy_loop.simps) simp
    next
      case (Inr z')
      from 1[OF False Inr] ZipWriteFile_write_same[OF Inr]
      have "same_file z (after (copy_loop ok (BytesIO_advance fsrc n) z' n))"
        by (blast intro: same_file_trans)
      with False Inr show ?thesis by (subst copy_loop.simps) simp
    qed
  qed
qed

lemma copyfileobj_same: "same_file z (after (copyfileobj ok fsrc ch z n))"
  by (cases ch) (simp_all add: copyfileobj_def Let_def copy_loop_same)

lemma copyfileobj_ZipExtFile: "after (copyfileobj ok fsrc ZipExtFile z n) = z"
  by (simp add: copyfileobj_def Let_def)

lemma ZipWriteFile_close_frame:
  "same_file z (after (ZipWriteFile_close ok z)) \<and>
   (zf_writing z = None \<longrightarrow> after (ZipWriteFile_close ok z) = z) \<and>
   zf_writing (after (ZipWriteFile_close ok z)) = None"
  by (auto simp: ZipWriteFile_close_def Let_def same_file_def split: option.splits)

lemma channel_exit_same: "same_file z (after (channel_exit ok ch z))"
  by (cases ch) (simp_all add: channel_exit_def ZipWriteFile_close_frame)

lemma channel_exit_ZipExtFile: "after (channel_exit ok ZipExtFile z) = z"
  by (simp add: channel_exit_def)

lemma channel_exit_ZipWriteFile: "zf_writing (after (channel_exit ok ZipWriteFile z)) = None"
  by (simp add: channel_exit_def ZipWriteFile_close_frame)

lemma write_after_block:
  assumes "file self = Some r" and "enc data = Inr bs"
    and "ZipFile_open (medium_ok \<sigma>) (heap \<sigma> ! r) (key @ ''.npy'') (mode self) True = Inr (ch, z)"
  shows "after (write enc self \<sigma> key data) =
     (self, \<sigma>\<lparr>heap := (heap \<sigma>)[r := after (channel_exit (medium_ok \<sigma>) ch
        (after (copyfileobj (medium_ok \<sigma>) \<lparr>getvalue = bs, pos = 0\<rparr> ch z 0)))]\<rparr>)"
  using assms
  by (simp add: write_def timing_def write_body_def np_save_BytesIO BytesIO_seek_def
      split: sum.splits prod.splits)

lemma write_frame:
  assumes "file self = Some r"
  shows "\<exists>z'. after (write enc self \<sigma> key data) = (self, \<sigma>\<lparr>heap := (heap \<sigma>)[r := z']\<rparr>) \<and>
           same_file (heap \<sigma> ! r) z' \<and>
           (zf_writing (heap \<sigma> ! r) = None \<longrightarrow> zf_writing z' = None)"
proof (cases "enc data")
  case (Inl e)
  then have "after (write enc self \<sigma> key data) = (self, \<sigma>\<lparr>heap := (heap \<sigma>)[r := heap \<sigma> ! r]\<rparr>)"
    by (simp add: write_encoder_raises)
  then show ?thesis by (intro exI[of _ "heap \<sigma> ! r"]) simp
next
  case (Inr bs)
  show ?thesis
  proof (cases "ZipFile_open (medium_ok \<sigma>) (heap \<sigma> ! r) (key @ ''.npy'') (mode self) True")
    case (Inl x)
    obtain e z where x: "x = (e, z)" by (cases x)
    from Inl x Inr assms have "after (write enc self \<sigma> key data) = (self, \<sigma>\<lparr>heap := (heap \<sigma>)[r := z]\<rparr>)"
      by (simp add: write_def timing_def write_body_def np_save_BytesIO)
    with ZipFile_open_Inl_frame[OF Inl[unfolded x]] show ?thesis by auto
  next
    case (Inr y)
    obtain ch z where y: "y = (ch, z)" by (cases y)
    note o = Inr[unfolded y]
    let ?z1 = "after (copyfileobj (medium_ok \<sigma>) \<lparr>getvalue = bs, pos = 0\<rparr> ch z 0)"
    let ?z2 = "after (channel_exit (medium_ok \<sigma>) ch ?z1)"
    have a: "after (write enc self \<sigma> key data) = (self, \<sigma>\<lparr>heap := (heap \<sigma>)[r := ?z2]\<rparr>)"
      using write_after_block[of self r enc data bs \<sigma> key ch z] assms \<open>enc data = Inr bs\<close> o
      by simp
    have s: "same_file (heap \<sigma> ! r) ?z2"
      using ZipFile_open_Inr_frame[OF o] copyfileobj_same channel_exit_same
      by (blast intro: same_file_trans)
    have w: "zf_writing (heap \<sigma> ! r) = None \<longrightarrow> zf_writing ?z2 = None"
    proof (cases ch)
      case ZipExtFile
      with ZipFile_open_Inr_frame[OF o] show ?thesis
        by (simp add: copyfileobj_ZipExtFile channel_exit_ZipExtFile)
    next
      case ZipWriteFile
      then show ?thesis by (simp add: channel_exit_ZipWriteFile)
    qed
    show ?thesis
      by (rule exI[of _ ?z2]) (use a s w in simp)
  qed
qed

lemma write_no_file: "file self = None \<Longrightarrow> after (write enc self \<sigma> key data) = (self, \<sigma>)"
  by (simp add: write_def timing_def write_body_def np_save_def split: sum.splits)

lemma writes_frame:
  assumes "file self = Some r" and "r < length (heap \<sigma>)" and "zf_writing (heap \<sigma> ! r) = None"
  shows "\<exists>z'. after (writes enc kds self \<sigma>) = (self, \<sigma>\<lparr>heap := (heap \<sigma>)[r := z']\<rparr>) \<and>
           same_file (heap \<sigma> ! r) z' \<and> zf_writing z' = None"
  using assms(2,3)
proof (induction kds arbitrary: \<sigma>)
  case Nil
  show ?case
    by (rule exI[of _ "heap \<sigma> ! r"]) (use Nil in simp)
next
  case (Cons kd kds)
  obtain key data where kd: "kd = (key, data)" by (cases kd)
  from write_frame[OF assms(1), of enc \<sigma> key data] Cons.prems(2) obtain z1 where
    w: "after (write enc self \<sigma> key data) = (self, \<sigma>\<lparr>heap := (heap \<sigma>)[r := z1]\<rparr>)"
    and s1: "same_file (heap \<sigma> ! r) z1" and w1: "zf_writing z1 = None"
    by blast
  show ?case
  proof (cases "write enc self \<sigma> key data")
    case (Inl x)
    with w have "after (writes enc (kd # kds) self \<sigma>) = (self, \<sigma>\<lparr>heap := (heap \<sigma>)[r := z1]\<rparr>)"
      by (simp add: kd)
    with s1 w1 show ?thesis by blast
  next
    case (Inr s)
    let ?\<sigma>1 = "\<sigma>\<lparr>heap := (heap \<sigma>)[r := z1]\<rparr>"
    from Inr w have s: "s = (self, ?\<sigma>1)" by simp
    have "r < length (heap ?\<sigma>1)" "zf_writing (heap ?\<sigma>1 ! r) = None"
      using Cons.prems(1) w1 by simp_all
    from Cons.IH[OF this] obtain z2 where
      a: "after (writes enc kds self ?\<sigma>1) = (self, ?\<sigma>1\<lparr>heap := (heap ?\<sigma>1)[r := z2]\<rparr>)"
      and s2: "same_file (heap ?\<sigma>1 ! r) z2" and w2: "zf_writing z2 = None"
      by blast
    from a Inr s have "after (writes enc (kd # kds) self \<sigma>) = (self, \<sigma>\<lparr>heap := (heap \<sigma>)[r := z2]\<rparr>)"
      by (simp add: kd)
    moreover from s1 s2 Cons.prems(1) have "same_file (heap \<sigma> ! r) z2"
      by (auto intro: same_file_trans)
    ultimately show ?thesis using w2 by blast
  qed
qed

text \<open>Closing, and the \<^verbatim>\<open>with\<close> statement.\<close>

lemma ZipFile_named_Inr:
  "ZipFile d (Some p) m c = Inr (z, d') \<Longrightarrow>
     zf_fp z = Some (DiskFile p) \<and> zf_writing z = None \<and> zf_fp_closes z = 0 \<and> zf_mode z = m"
  by (auto simp: ZipFile_def new_zipfile_def split: if_splits option.splits)

lemma ZipFile_close_open:
  "zf_fp z = Some (DiskFile p) \<Longrightarrow> zf_writing z = None \<Longrightarrow>
     after (ZipFile_close ok z) = fpclose z (DiskFile p)"
  by (simp add: ZipFile_close_def split: option.splits)

lemma close_after:
  assumes "tofile self \<noteq> None" and "file self = Some r"
  shows "snd (after (close self \<sigma>)) =
           \<sigma>\<lparr>heap := (heap \<sigma>)[r := after (ZipFile_close (medium_ok \<sigma>) (heap \<sigma> ! r))]\<rparr> \<and>
         file (fst (after (close self \<sigma>))) = Some r"
  using assms by (auto simp: close_def split: sum.splits)

lemma with_writer_after:
  assumes "enter mgr \<sigma> = Inr (self, \<sigma>1)"
  shows "after (with_writer mgr \<sigma> body) =
           after (close (fst (after (body self \<sigma>1))) (snd (after (body self \<sigma>1))))"
  using assms by (auto simp: with_writer_def exit_def split: sum.splits)

lemma with_writer_enter_raises:
  "enter mgr \<sigma> = Inl x \<Longrightarrow> with_writer mgr \<sigma> body = Inl x"
  by (simp add: with_writer_def)

lemma with_writer_body_raises:
  "enter mgr \<sigma> = Inr (self, \<sigma>1) \<Longrightarrow> body self \<sigma>1 = Inl x \<Longrightarrow>
     \<exists>y. with_writer mgr \<sigma> body = Inl y"
  by (cases x) (auto simp: with_writer_def split: sum.splits)

lemma open_handles_append:
  "open_handles (\<sigma>\<lparr>heap := heap \<sigma> @ [z]\<rparr>) = open_handles \<sigma> + (if zf_fp z \<noteq> None then 1 else 0)"
  by (simp add: open_handles_def)

text \<open>A writer built by the constructor is \<open>constructed\<close> and stays so under every
  call; once \<^verbatim>\<open>openFile\<close> has returned it is \<open>opened\<close>, and \<^verbatim>\<open>write\<close> keeps it so.\<close>

lemma init_constructed: "init p m c = Inr self \<Longrightarrow> constructed self \<sigma>"
  by (auto simp: init_def constructed_def split: if_splits)

lemma init_fields:
  "init p m c = Inr self \<Longrightarrow> tofile self = Some p \<and> mode self = m \<and> file self = None"
  by (auto simp: init_def split: if_splits)


lemma openFile_Inr:
  assumes "openFile self \<sigma> = Inr (self1, \<sigma>1)"
  shows "\<exists>z d B. ZipFile (disk \<sigma>) (tofile self) (mode self) (compression self) = Inr (z, d) \<and>
           self1 = self\<lparr>file := Some (length (heap \<sigma>))\<rparr> \<and>
           \<sigma>1 = \<sigma>\<lparr>disk := d, heap := B @ [z]\<rparr> \<and>
           length B = length (heap \<sigma>) \<and>
           B = (case file self of
                  None \<Rightarrow> heap \<sigma>
                | Some r \<Rightarrow> (heap \<sigma>)[r := ZipFile_del (medium_ok \<sigma>) (heap \<sigma> ! r)])"
  using assms by (auto simp: openFile_def split: sum.splits option.splits)

lemma openFile_opened:
  assumes "tofile self = Some p" and "openFile self \<sigma> = Inr (self1, \<sigma>1)"
  shows "opened self1 \<sigma>1"
proof -
  from openFile_Inr[OF assms(2)] obtain z d B where
    zf: "ZipFile (disk \<sigma>) (tofile self) (mode self) (compression self) = Inr (z, d)"
    and s: "self1 = self\<lparr>file := Some (length (heap \<sigma>))\<rparr>"
      "\<sigma>1 = \<sigma>\<lparr>disk := d, heap := B @ [z]\<rparr>" "length B = length (heap \<sigma>)"
    by blast
  from ZipFile_named_Inr[OF zf[unfolded assms(1)]] s assms(1) show ?thesis
    by (simp add: opened_def nth_append)
qed

lemma write_opened:
  assumes "opened self \<sigma>"
  shows "opened (fst (after (write enc self \<sigma> key data))) (snd (after (write enc self \<sigma> key data)))"
proof -
  from assms obtain r where r: "file self = Some r"
    by (auto simp: opened_def split: option.splits)
  note o = opened_D[OF assms r]
  from write_frame[OF r, of enc \<sigma> key data] o(5) obtain z' where
    "after (write enc self \<sigma> key data) = (self, \<sigma>\<lparr>heap := (heap \<sigma>)[r := z']\<rparr>)"
    "same_file (heap \<sigma> ! r) z'" "zf_writing z' = None"
    by blast
  with o r show ?thesis
    by (auto simp: opened_def same_file_def)
qed

lemma constructed_step:
  assumes "constructed self \<sigma>"
  shows "constructed (fst (step enc (self, \<sigma>) c)) (snd (step enc (self, \<sigma>) c))"
proof (cases c)
  case OpenFile
  with assms show ?thesis
    by (auto simp: constructed_def openFile_def split: sum.splits option.splits)
next
  case (Write key data)
  show ?thesis
  proof (cases "file self")
    case None
    with assms Write show ?thesis by (simp add: write_no_file)
  next
    case (Some r)
    from write_frame[OF Some, of enc \<sigma> key data] obtain z' where
      "after (write enc self \<sigma> key data) = (self, \<sigma>\<lparr>heap := (heap \<sigma>)[r := z']\<rparr>)"
      by blast
    with assms Write Some show ?thesis by (simp add: constructed_def)
  qed
next
  case Close
  with assms show ?thesis
    by (auto simp: constructed_def close_def split: sum.splits option.splits)
next
  case (Medium b)
  with assms show ?thesis
    by (simp add: constructed_def split: option.splits)
qed











lemma two_opens_one_open_archive:
  "open_handles (snd (run sample_encoder (new_writer ''w'', fresh) [OpenFile, OpenFile])) = 1"
  by (simp add: run_def openFile_def new_writer_def fresh_def ZipFile_def new_zipfile_def
      open_handles_def ZipFile_del_def ZipFile_close_def fp_write_def fpclose_def)

subsection \<open>The claims\<close>

text \<open>
  C1. The claim: for a writer opened under any of the modes x, w, a, a non-empty key
  and encodable data, \<^verbatim>\<open>write\<close> returns and the archive holds one more member,
  \<^verbatim>\<open>key + '.npy'\<close>, with the whole encoded buffer. The code passes the mode of the
  archive on as the mode of the member (\<^verbatim>\<open>self.file.open(key, mode=self.mode, ...)\<close>),
  and \<^verbatim>\<open>ZipFile.open\<close> accepts only \<^verbatim>\<open>'r'\<close> and \<^verbatim>\<open>'w'\<close>. Evaluated on the writer
  \<^verbatim>\<open>IncrementalNpzWriter('test.npz')\<close> (default mode \<^verbatim>\<open>'x'\<close>), opened on an empty disk:
  the call raises \<^verbatim>\<open>ValueError\<close> and the archive is unchanged. (For mode \<^verbatim>\<open>'w'\<close> the
  claim holds: lemma \<open>write_w_ok\<close>.)
\<close>

theorem write_default_mode_raises:
  "init ''test.npz'' ''x'' False = Inr (new_writer ''x'') \<and>
   openFile (new_writer ''x'') fresh = Inr (open_writer ''x'', open_world ''x'') \<and>
   opened (open_writer ''x'') (open_world ''x'') \<and>
   write sample_encoder (open_writer ''x'') (open_world ''x'') ''a'' (Ndarray ''<f8'' [2] [1, 2]) =
     Inl (ValueError ''open() requires mode r or w'', open_writer ''x'', open_world ''x'')"
proof -
  have "write sample_encoder (open_writer ''x'') (open_world ''x'') ''a'' (Ndarray ''<f8'' [2] [1, 2]) =
     Inl (ValueError ''open() requires mode r or w'', open_writer ''x'', open_world ''x'')"
    by (rule write_mode_x_a_raises[where r = 0 and bs = "[0x93, 0x4E, 0x55, 0x4D, 0x50, 0x59, 1, 2]"])
       (simp_all add: open_writer_def sample_encoder_def)
  then show ?thesis
    by (simp add: init_new_writer openFile_new_writer opened_example)
qed

text \<open>
  C2. The claim: construction succeeds if and only if the mode is one of \<^verbatim>\<open>'x'\<close>,
  \<^verbatim>\<open>'w'\<close>, \<^verbatim>\<open>'a'\<close>, and fails for the empty string and for \<^verbatim>\<open>'xw'\<close>. The assertion
  \<^verbatim>\<open>mode in 'xwa'\<close> is a substring test: the constructor accepts the empty string and
  \<^verbatim>\<open>'xw'\<close> (and \<^verbatim>\<open>'wa'\<close>, \<^verbatim>\<open>'xwa'\<close>: lemma \<open>init_Inr_iff\<close>), against its own docstring.
\<close>

theorem init_accepts_other_modes:
  "init t '''' c =
     Inr \<lparr>compression = (if c then ZIP_DEFLATED else ZIP_STORED), tofile = Some t,
          mode = '''', file = None\<rparr> \<and>
   init t ''xw'' c =
     Inr \<lparr>compression = (if c then ZIP_DEFLATED else ZIP_STORED), tofile = Some t,
          mode = ''xw'', file = None\<rparr>"
  by (simp add: init_def)

text \<open>
  C3. A writer that has been opened, on a medium that takes the end records:
  the first \<^verbatim>\<open>close()\<close> returns, closes the file under the archive (once) and sets
  \<^verbatim>\<open>self.tofile\<close> to \<^verbatim>\<open>None\<close>; the second \<^verbatim>\<open>close()\<close> returns with the writer and the
  world as they are, so the file has been closed exactly once after both.
\<close>

theorem close_twice_closes_once:
  assumes "opened self \<sigma>" and "file self = Some r" and "medium_ok \<sigma>"
  shows "\<exists>\<sigma>1. close self \<sigma> = Inr (self\<lparr>tofile := None\<rparr>, \<sigma>1) \<and>
           zf_fp (heap \<sigma>1 ! r) = None \<and>
           zf_fp_closes (heap \<sigma>1 ! r) = zf_fp_closes (heap \<sigma> ! r) + 1 \<and>
           close (self\<lparr>tofile := None\<rparr>) \<sigma>1 = Inr (self\<lparr>tofile := None\<rparr>, \<sigma>1)"
proof -
  from opened_D[OF assms(1,2)] obtain p where
    h: "tofile self \<noteq> None" "r < length (heap \<sigma>)" "zf_fp (heap \<sigma> ! r) = Some (DiskFile p)"
       "zf_writing (heap \<sigma> ! r) = None"
    by blast
  have "ZipFile_close (medium_ok \<sigma>) (heap \<sigma> ! r) = Inr (fpclose (heap \<sigma> ! r) (DiskFile p))"
    using h(3,4) assms(3) by (simp add: ZipFile_close_def fp_write_def)
  then have "close self \<sigma> =
      Inr (self\<lparr>tofile := None\<rparr>, \<sigma>\<lparr>heap := (heap \<sigma>)[r := fpclose (heap \<sigma> ! r) (DiskFile p)]\<rparr>)"
    using h(1) assms(2) by (simp add: close_def)
  moreover have "close (self\<lparr>tofile := None\<rparr>) \<sigma>' = Inr (self\<lparr>tofile := None\<rparr>, \<sigma>')" for \<sigma>'
    by (simp add: close_def)
  ultimately show ?thesis
    using h(2) by (simp add: fpclose_def)
qed

theorem close_twice_closes_once_witness:
  "\<exists>\<sigma>1. close (open_writer ''w'') (open_world ''w'') = Inr ((open_writer ''w'')\<lparr>tofile := None\<rparr>, \<sigma>1) \<and>
         zf_fp (heap \<sigma>1 ! 0) = None \<and>
         zf_fp_closes (heap \<sigma>1 ! 0) = 1 \<and>
         close ((open_writer ''w'')\<lparr>tofile := None\<rparr>) \<sigma>1 = Inr ((open_writer ''w'')\<lparr>tofile := None\<rparr>, \<sigma>1)"
  using close_twice_closes_once[of "open_writer ''w''" "open_world ''w''" 0]
  by (simp add: opened_example) (simp add: open_writer_def open_world_def new_zipfile_def)

text \<open>
  C4. The writer as a context manager, around a block of \<^verbatim>\<open>write\<close> calls. Entering is
  \<^verbatim>\<open>openFile\<close> and yields the writer, with its archive open. Whether the block runs to
  its end or one of its calls raises, \<^verbatim>\<open>close()\<close> runs once on the way out: in the state
  the statement leaves behind, the archive opened at the entry has given up its file,
  the file has been closed exactly once, every other object of the store is as the
  entry left it, and one archive fewer is open than after the entry. For a writer that
  was not opened before, the store holds the objects and as many open archives as
  before the statement. (An exception of the block is raised again: lemma
  \<open>with_writer_body_raises\<close>. When entering raises, nothing has been opened and
  nothing is closed: lemma \<open>with_writer_enter_raises\<close>.)
\<close>

theorem scope_closes_once:
  assumes "tofile mgr = Some p" and "enter mgr \<sigma> = Inr (self, \<sigma>1)"
  shows "openFile mgr \<sigma> = Inr (self, \<sigma>1) \<and>
         zf_fp (heap \<sigma>1 ! length (heap \<sigma>)) = Some (DiskFile p) \<and>
         (\<exists>self' \<sigma>' z'. after (with_writer mgr \<sigma> (writes enc kds)) = (self', \<sigma>') \<and>
            file self' = Some (length (heap \<sigma>)) \<and>
            heap \<sigma>' = butlast (heap \<sigma>1) @ [z'] \<and> zf_fp z' = None \<and> zf_fp_closes z' = 1 \<and>
            Suc (open_handles \<sigma>') = open_handles \<sigma>1 \<and>
            (file mgr = None \<longrightarrow>
               heap \<sigma>' = heap \<sigma> @ [z'] \<and> open_handles \<sigma>' = open_handles \<sigma>))"
proof -
  let ?r = "length (heap \<sigma>)"
  from assms(2) have o: "openFile mgr \<sigma> = Inr (self, \<sigma>1)"
    by (simp add: enter_def)
  from openFile_Inr[OF o] obtain z d B where
    zf: "ZipFile (disk \<sigma>) (tofile mgr) (mode mgr) (compression mgr) = Inr (z, d)"
    and self: "self = mgr\<lparr>file := Some ?r\<rparr>"
    and s1: "\<sigma>1 = \<sigma>\<lparr>disk := d, heap := B @ [z]\<rparr>"
    and lb: "length B = ?r"
    and b: "B = (case file mgr of
                   None \<Rightarrow> heap \<sigma>
                 | Some r \<Rightarrow> (heap \<sigma>)[r := ZipFile_del (medium_ok \<sigma>) (heap \<sigma> ! r)])"
    by blast
  have bl: "butlast (heap \<sigma>1) = B" and nz: "heap \<sigma>1 ! ?r = z"
    using s1 lb by (simp_all add: nth_append)
  from ZipFile_named_Inr[OF zf[unfolded assms(1)]]
  have z: "zf_fp z = Some (DiskFile p)" "zf_writing z = None" "zf_fp_closes z = 0"
    by simp_all
  have f: "file self = Some ?r" and t: "tofile self \<noteq> None"
    using self assms(1) by simp_all
  have "?r < length (heap \<sigma>1)" "zf_writing (heap \<sigma>1 ! ?r) = None"
    using s1 lb nz z by simp_all
  from writes_frame[OF f this, of enc kds] obtain z1 where
    wf: "after (writes enc kds self \<sigma>1) = (self, \<sigma>1\<lparr>heap := (heap \<sigma>1)[?r := z1]\<rparr>)"
    and sf: "same_file (heap \<sigma>1 ! ?r) z1" and w1: "zf_writing z1 = None"
    by blast
  let ?\<sigma>2 = "\<sigma>1\<lparr>heap := B @ [z1]\<rparr>"
  have z1: "zf_fp z1 = Some (DiskFile p)" "zf_fp_closes z1 = 0"
    using sf nz z by (simp_all add: same_file_def)
  have u: "(heap \<sigma>1)[?r := z1] = B @ [z1]"
    using s1 list_update_length[of B z "[]" z1] lb by simp
  let ?z' = "fpclose z1 (DiskFile p)"
  let ?\<sigma>3 = "\<sigma>1\<lparr>heap := B @ [?z']\<rparr>"
  have c: "after (ZipFile_close (medium_ok ?\<sigma>2) (heap ?\<sigma>2 ! ?r)) = ?z'"
    using ZipFile_close_open[OF z1(1) w1] lb by (simp add: nth_append)
  have "(heap ?\<sigma>2)[?r := ?z'] = B @ [?z']"
    using list_update_length[of B z1 "[]" ?z'] lb by simp
  with close_after[OF t f, of ?\<sigma>2] c
  have c1: "snd (after (close self ?\<sigma>2)) = ?\<sigma>3"
    and c2: "file (fst (after (close self ?\<sigma>2))) = Some ?r"
    by simp_all
  have w: "after (with_writer mgr \<sigma> (writes enc kds)) = after (close self ?\<sigma>2)"
    using with_writer_after[OF assms(2), of "writes enc kds"] wf u by simp
  have oh3: "open_handles ?\<sigma>3 = length (filter (\<lambda>z. zf_fp z \<noteq> None) B)"
    by (simp add: open_handles_def fpclose_def)
  have oh1: "open_handles \<sigma>1 = Suc (length (filter (\<lambda>z. zf_fp z \<noteq> None) B))"
    using s1 z by (simp add: open_handles_def)
  have fresh_heap: "B = heap \<sigma>" if "file mgr = None"
    using that b by simp
  have fresh_open: "open_handles ?\<sigma>3 = open_handles \<sigma>" if "file mgr = None"
    using fresh_heap[OF that] oh3 by (simp add: open_handles_def)
  have "\<exists>self' \<sigma>' z'. after (with_writer mgr \<sigma> (writes enc kds)) = (self', \<sigma>') \<and>
            file self' = Some ?r \<and> heap \<sigma>' = butlast (heap \<sigma>1) @ [z'] \<and> zf_fp z' = None \<and>
            zf_fp_closes z' = 1 \<and> Suc (open_handles \<sigma>') = open_handles \<sigma>1 \<and>
            (file mgr = None \<longrightarrow>
               heap \<sigma>' = heap \<sigma> @ [z'] \<and> open_handles \<sigma>' = open_handles \<sigma>)"
  proof (intro exI[of _ "fst (after (close self ?\<sigma>2))"] exI[of _ ?\<sigma>3] exI[of _ ?z'] conjI impI)
    show "after (with_writer mgr \<sigma> (writes enc kds)) = (fst (after (close self ?\<sigma>2)), ?\<sigma>3)"
      using w c1 by (simp add: prod_eq_iff)
    show "file (fst (after (close self ?\<sigma>2))) = Some ?r"
      by (rule c2)
    show "heap ?\<sigma>3 = butlast (heap \<sigma>1) @ [?z']"
      using bl by simp
    show "zf_fp ?z' = None" "zf_fp_closes ?z' = 1"
      using z1(2) by (simp_all add: fpclose_def)
    show "Suc (open_handles ?\<sigma>3) = open_handles \<sigma>1"
      using oh3 oh1 by simp
    show "heap ?\<sigma>3 = heap \<sigma> @ [?z']" if "file mgr = None"
      using fresh_heap[OF that] by simp
    show "open_handles ?\<sigma>3 = open_handles \<sigma>" if "file mgr = None"
      by (rule fresh_open[OF that])
  qed
  with o nz z(1) show ?thesis
    by simp
qed

theorem scope_closes_once_witness:
  "tofile (new_writer ''w'') = Some ''test.npz'' \<and>
   enter (new_writer ''w'') fresh = Inr (open_writer ''w'', open_world ''w'') \<and>
   file (new_writer ''w'') = None \<and>
   writes sample_encoder [(''a'', Ndarray '''' [] [])] (open_writer ''w'') (open_world ''w'') =
     Inl (EncodeError ''dtype'', open_writer ''w'', open_world ''w'') \<and>
   (\<exists>s. with_writer (new_writer ''w'') fresh (writes sample_encoder [(''a'', Ndarray '''' [] [])]) =
      Inl (EncodeError ''dtype'', s)) \<and>
   zf_fp (heap (open_world ''w'') ! length (heap fresh)) = Some (DiskFile ''test.npz'') \<and>
   (\<exists>self' \<sigma>' z'.
      after (with_writer (new_writer ''w'') fresh (writes sample_encoder [(''a'', Ndarray '''' [] [])])) =
        (self', \<sigma>') \<and>
      file self' = Some (length (heap fresh)) \<and>
      heap \<sigma>' = heap fresh @ [z'] \<and> zf_fp z' = None \<and> zf_fp_closes z' = 1 \<and>
      Suc (open_handles \<sigma>') = open_handles (open_world ''w'') \<and>
      open_handles \<sigma>' = open_handles fresh)"
proof -
  have t: "tofile (new_writer ''w'') = Some ''test.npz''" and n: "file (new_writer ''w'') = None"
    by (simp_all add: new_writer_def)
  have e: "enter (new_writer ''w'') fresh = Inr (open_writer ''w'', open_world ''w'')"
    by (simp add: enter_def openFile_new_writer)
  have w: "writes sample_encoder [(''a'', Ndarray '''' [] [])] (open_writer ''w'') (open_world ''w'') =
     Inl (EncodeError ''dtype'', open_writer ''w'', open_world ''w'')"
    by (simp add: write_encoder_raises sample_encoder_def)
  have c: "close (open_writer ''w'') (open_world ''w'') =
      Inr ((open_writer ''w'')\<lparr>tofile := None\<rparr>,
           (open_world ''w'')\<lparr>heap := [fpclose (heap (open_world ''w'') ! 0) (DiskFile ''test.npz'')]\<rparr>)"
    by (simp add: close_def open_writer_def open_world_def ZipFile_close_def new_zipfile_def fp_write_def)
  have x: "\<exists>s. with_writer (new_writer ''w'') fresh (writes sample_encoder [(''a'', Ndarray '''' [] [])]) =
      Inl (EncodeError ''dtype'', s)"
    using e w c by (simp add: with_writer_def exit_def)
  from scope_closes_once[OF t e, of sample_encoder "[(''a'', Ndarray '''' [] [])]"] n
  obtain self' \<sigma>' z' where
    "after (with_writer (new_writer ''w'') fresh (writes sample_encoder [(''a'', Ndarray '''' [] [])])) =
        (self', \<sigma>')"
    "file self' = Some (length (heap fresh))" "zf_fp z' = None" "zf_fp_closes z' = 1"
    "Suc (open_handles \<sigma>') = open_handles (open_world ''w'')"
    "heap \<sigma>' = heap fresh @ [z']" "open_handles \<sigma>' = open_handles fresh"
    by auto
  then have "\<exists>self' \<sigma>' z'.
      after (with_writer (new_writer ''w'') fresh (writes sample_encoder [(''a'', Ndarray '''' [] [])])) =
        (self', \<sigma>') \<and>
      file self' = Some (length (heap fresh)) \<and>
      heap \<sigma>' = heap fresh @ [z'] \<and> zf_fp z' = None \<and> zf_fp_closes z' = 1 \<and>
      Suc (open_handles \<sigma>') = open_handles (open_world ''w'') \<and>
      open_handles \<sigma>' = open_handles fresh"
    by blast
  moreover have "zf_fp (heap (open_world ''w'') ! length (heap fresh)) = Some (DiskFile ''test.npz'')"
    by (simp add: open_world_def fresh_def new_zipfile_def)
  ultimately show ?thesis
    using t e n w x by simp
qed

text \<open>
  C5. Whatever \<^verbatim>\<open>data\<close> is, an array or a byte string, the member that a returning
  \<^verbatim>\<open>write\<close> adds holds the output of the encoder on \<^verbatim>\<open>data\<close>, not \<^verbatim>\<open>data\<close> itself:
  there is no path around \<^verbatim>\<open>np.save\<close>. (When the encoder raises, nothing is written:
  lemma \<open>write_encoder_raises\<close>.)
\<close>

theorem write_stores_encoded_data:
  assumes "constructed self \<sigma>" and "write enc self \<sigma> key data = Inr (self', \<sigma>')"
  shows "\<exists>r bs. file self = Some r \<and> enc data = Inr bs \<and>
           length (zf_filelist (heap \<sigma>' ! r)) = Suc (length (zf_filelist (heap \<sigma> ! r))) \<and>
           e_data (last (zf_filelist (heap \<sigma>' ! r))) = bs"
proof -
  from write_Inr_result[OF assms(2) constructed_not_r[OF assms(1)]] obtain r bs where
    h: "file self = Some r" "enc data = Inr bs"
       "\<sigma>' = \<sigma>\<lparr>heap := (heap \<sigma>)[r := (heap \<sigma> ! r)
              \<lparr>zf_filelist := zf_filelist (heap \<sigma> ! r) @
                  [\<lparr>e_name = ZipInfo_filename (key @ ''.npy''), e_data = bs, e_zip64 = True\<rparr>],
               zf_didModify := True\<rparr>]\<rparr>"
    by blast
  from assms(1) h(1) have "r < length (heap \<sigma>)"
    by (simp add: constructed_def)
  with h show ?thesis by simp
qed

theorem write_stores_encoded_data_witness:
  "constructed (open_writer ''w'') (open_world ''w'') \<and>
   (\<exists>\<sigma>'. write sample_encoder (open_writer ''w'') (open_world ''w'') ''a'' (RawBytes [1, 2]) =
           Inr (open_writer ''w'', \<sigma>') \<and>
         sample_encoder (RawBytes [1, 2]) = Inr [0x93, 0x4E, 0x55, 0x4D, 0x50, 0x59, 1, 2] \<and>
         length (zf_filelist (heap \<sigma>' ! 0)) = 1 \<and>
         e_data (last (zf_filelist (heap \<sigma>' ! 0))) = [0x93, 0x4E, 0x55, 0x4D, 0x50, 0x59, 1, 2])"
proof -
  have c: "constructed (open_writer ''w'') (open_world ''w'')"
    by (simp add: constructed_def open_writer_def open_world_def)
  have w: "write sample_encoder (open_writer ''w'') (open_world ''w'') ''a'' (RawBytes [1, 2]) =
      Inr (open_writer ''w'', (open_world ''w'')\<lparr>heap := (heap (open_world ''w''))[0 := (heap (open_world ''w'') ! 0)
        \<lparr>zf_filelist := zf_filelist (heap (open_world ''w'') ! 0) @
            [\<lparr>e_name = ZipInfo_filename (''a'' @ ''.npy''), e_data = [0x93, 0x4E, 0x55, 0x4D, 0x50, 0x59, 1, 2], e_zip64 = True\<rparr>],
         zf_didModify := True\<rparr>]\<rparr>)"
    by (rule write_w_ok) (simp_all add: opened_example, simp_all add: open_writer_def open_world_def sample_encoder_def)
  have z: "zf_filelist (heap (open_world ''w'') ! 0) = []"
    by (simp add: open_world_def new_zipfile_def)
  from write_stores_encoded_data[OF c w] c w z show ?thesis
    by (auto simp: open_writer_def sample_encoder_def)
qed

text \<open>
  C6. The claim: when the close of the archive fails inside \<^verbatim>\<open>close()\<close>, the error
  reaches the caller and the writer is marked closed all the same. The method is
  \<^verbatim>\<open>self.file.close(); self.tofile = None\<close> with nothing to catch the exception, so the
  assignment does not run: on the open writer of the main block with a medium that
  refuses writes, \<^verbatim>\<open>close()\<close> raises \<^verbatim>\<open>OSError\<close> and \<^verbatim>\<open>self.tofile\<close> is still the path.
\<close>

theorem failed_close_not_marked_closed:
  "close (open_writer ''w'') ((open_world ''w'')\<lparr>medium_ok := False\<rparr>) =
     Inl (OSError, open_writer ''w'',
          (open_world ''w'')\<lparr>medium_ok := False,
             heap := [(new_zipfile ''w'' ZIP_STORED (DiskFile ''test.npz'') [] True)
                         \<lparr>zf_fp := None, zf_fp_closes := 1\<rparr>]\<rparr>) \<and>
   tofile (open_writer ''w'') = Some ''test.npz''"
  by (simp add: close_def open_writer_def open_world_def ZipFile_close_def new_zipfile_def
      fp_write_def fpclose_def)

text \<open>
  C6, as the code has it: when the close of the archive fails for an opened writer,
  the exception is the medium's \<^verbatim>\<open>OSError\<close> and reaches the caller, the archive has
  given up its file, and the writer keeps its path. The next \<^verbatim>\<open>close()\<close> is therefore
  not stopped by the guard: it calls the archive's close again, which returns at once
  on the closed archive, and then sets \<^verbatim>\<open>self.tofile\<close> to \<^verbatim>\<open>None\<close>.
\<close>

theorem failed_close_keeps_path:
  assumes "opened self \<sigma>" and "file self = Some r"
    and "ZipFile_close (medium_ok \<sigma>) (heap \<sigma> ! r) = Inl (e, z')"
  shows "e = OSError \<and> zf_fp z' = None \<and>
         close self \<sigma> = Inl (e, self, \<sigma>\<lparr>heap := (heap \<sigma>)[r := z']\<rparr>) \<and>
         tofile self \<noteq> None \<and>
         close self (\<sigma>\<lparr>heap := (heap \<sigma>)[r := z']\<rparr>) =
           Inr (self\<lparr>tofile := None\<rparr>, \<sigma>\<lparr>heap := (heap \<sigma>)[r := z']\<rparr>)"
proof -
  from opened_D[OF assms(1,2)] obtain p where
    h: "tofile self \<noteq> None" "r < length (heap \<sigma>)" "zf_fp (heap \<sigma> ! r) = Some (DiskFile p)"
       "zf_writing (heap \<sigma> ! r) = None"
    by blast
  from assms(3) h(3,4) have e: "e = OSError" and z: "z' = fpclose (heap \<sigma> ! r) (DiskFile p)"
    by (auto simp: ZipFile_close_def fp_write_def split: if_splits)
  have 1: "close self \<sigma> = Inl (e, self, \<sigma>\<lparr>heap := (heap \<sigma>)[r := z']\<rparr>)"
    using assms(2,3) h(1) by (simp add: close_def)
  have 2: "zf_fp z' = None"
    using z by (simp add: fpclose_def)
  have "ZipFile_close ok z' = Inr z'" for ok
    using 2 by (simp add: ZipFile_close_def)
  then have 3: "close self (\<sigma>\<lparr>heap := (heap \<sigma>)[r := z']\<rparr>) =
           Inr (self\<lparr>tofile := None\<rparr>, \<sigma>\<lparr>heap := (heap \<sigma>)[r := z']\<rparr>)"
    using assms(2) h(1,2) by (simp add: close_def)
  from e 1 2 3 h(1) show ?thesis by simp
qed

theorem failed_close_keeps_path_witness:
  "ZipFile_close False (heap (open_world ''w'') ! 0) =
      Inl (OSError, (heap (open_world ''w'') ! 0)\<lparr>zf_fp := None, zf_fp_closes := 1\<rparr>) \<and>
   close (open_writer ''w'') ((open_world ''w'')\<lparr>medium_ok := False\<rparr>) =
      Inl (OSError, open_writer ''w'', (open_world ''w'')\<lparr>medium_ok := False,
             heap := [(heap (open_world ''w'') ! 0)\<lparr>zf_fp := None, zf_fp_closes := 1\<rparr>]\<rparr>) \<and>
   tofile (open_writer ''w'') \<noteq> None \<and>
   close (open_writer ''w'') ((open_world ''w'')\<lparr>medium_ok := False,
             heap := [(heap (open_world ''w'') ! 0)\<lparr>zf_fp := None, zf_fp_closes := 1\<rparr>]\<rparr>) =
      Inr ((open_writer ''w'')\<lparr>tofile := None\<rparr>, (open_world ''w'')\<lparr>medium_ok := False,
             heap := [(heap (open_world ''w'') ! 0)\<lparr>zf_fp := None, zf_fp_closes := 1\<rparr>]\<rparr>)"
proof -
  have o: "opened (open_writer ''w'') ((open_world ''w'')\<lparr>medium_ok := False\<rparr>)"
    by (simp add: opened_medium opened_example)
  have f: "file (open_writer ''w'') = Some 0"
    by (simp add: open_writer_def)
  have c: "ZipFile_close (medium_ok ((open_world ''w'')\<lparr>medium_ok := False\<rparr>))
             (heap ((open_world ''w'')\<lparr>medium_ok := False\<rparr>) ! 0) =
      Inl (OSError, (heap (open_world ''w'') ! 0)\<lparr>zf_fp := None, zf_fp_closes := 1\<rparr>)"
    by (simp add: open_world_def ZipFile_close_def new_zipfile_def fp_write_def fpclose_def)
  have h: "heap (open_world ''w'') = [heap (open_world ''w'') ! 0]"
    by (simp add: open_world_def)
  from failed_close_keeps_path[OF o f c] c h show ?thesis
    by (simp add: open_world_def)
qed

text \<open>
  C7. The claim: the member that \<^verbatim>\<open>write(key, data)\<close> creates is named exactly \<^verbatim>\<open>key\<close>
  followed by \<^verbatim>\<open>.npy\<close>. The name goes through \<^verbatim>\<open>ZipInfo\<close>, which cuts it at the first NUL
  character: on the open writer of the main block, \<^verbatim>\<open>write('a\x00b', ...)\<close> returns and
  the member it has added is named \<^verbatim>\<open>a\<close>, without the suffix.
\<close>

theorem write_cuts_name_at_nul:
  "write sample_encoder (open_writer ''w'') (open_world ''w'') [CHR ''a'', CHR 0x00, CHR ''b'']
       (RawBytes [1, 2]) =
     Inr (open_writer ''w'',
          (open_world ''w'')\<lparr>heap :=
             [(new_zipfile ''w'' ZIP_STORED (DiskFile ''test.npz'') [] True)
                \<lparr>zf_filelist := [\<lparr>e_name = ''a'',
                                   e_data = [0x93, 0x4E, 0x55, 0x4D, 0x50, 0x59, 1, 2],
                                   e_zip64 = True\<rparr>]\<rparr>]\<rparr>) \<and>
   [CHR ''a'', CHR 0x00, CHR ''b''] @ ''.npy'' \<noteq> ''a''"
proof -
  have "write sample_encoder (open_writer ''w'') (open_world ''w'') [CHR ''a'', CHR 0x00, CHR ''b'']
       (RawBytes [1, 2]) =
      Inr (open_writer ''w'', (open_world ''w'')\<lparr>heap := (heap (open_world ''w''))[0 := (heap (open_world ''w'') ! 0)
        \<lparr>zf_filelist := zf_filelist (heap (open_world ''w'') ! 0) @
            [\<lparr>e_name = ZipInfo_filename ([CHR ''a'', CHR 0x00, CHR ''b''] @ ''.npy''),
              e_data = [0x93, 0x4E, 0x55, 0x4D, 0x50, 0x59, 1, 2], e_zip64 = True\<rparr>],
         zf_didModify := True\<rparr>]\<rparr>)"
    by (rule write_w_ok) (simp_all add: opened_example, simp_all add: open_writer_def open_world_def sample_encoder_def)
  then show ?thesis
    by (simp add: open_world_def new_zipfile_def ZipInfo_filename_def os_sep_def)
qed

text \<open>
  C7, as the code has it: for a key without a NUL character whose member name fits
  the name field of a header, a call \<^verbatim>\<open>write(key, data)\<close> that returns, on a constructed
  writer, has added exactly one member to the archive that \<^verbatim>\<open>self.file\<close> refers to,
  named \<^verbatim>\<open>key\<close> followed by \<^verbatim>\<open>.npy\<close>; the writer and every other object of the store are
  as before. (For every key the member is named \<open>ZipInfo_filename (key @ ''.npy'')\<close>:
  lemma \<open>write_Inr_result\<close>.)
\<close>

theorem write_names_member_of_plain_key:
  assumes "constructed self \<sigma>" and "write enc self \<sigma> key data = Inr (self', \<sigma>')"
    and "CHR 0x00 \<notin> set key" and "length (key @ ''.npy'') \<le> 65535"
  shows "\<exists>r e. file self = Some r \<and> self' = self \<and>
           heap \<sigma>' = (heap \<sigma>)[r := heap \<sigma>' ! r] \<and>
           zf_filelist (heap \<sigma>' ! r) = zf_filelist (heap \<sigma> ! r) @ [e] \<and>
           e_name e = key @ ''.npy''"
proof -
  from write_Inr_result[OF assms(2) constructed_not_r[OF assms(1)]] obtain r bs where
    h: "file self = Some r" "self' = self"
       "\<sigma>' = \<sigma>\<lparr>heap := (heap \<sigma>)[r := (heap \<sigma> ! r)
              \<lparr>zf_filelist := zf_filelist (heap \<sigma> ! r) @
                  [\<lparr>e_name = ZipInfo_filename (key @ ''.npy''), e_data = bs, e_zip64 = True\<rparr>],
               zf_didModify := True\<rparr>]\<rparr>"
    by blast
  from assms(1) h(1) have "r < length (heap \<sigma>)"
    by (simp add: constructed_def)
  moreover from assms(3) have "ZipInfo_filename (key @ ''.npy'') = key @ ''.npy''"
    by (intro ZipInfo_filename_plain) simp
  ultimately show ?thesis
    using h by simp
qed

theorem write_names_member_of_plain_key_witness:
  "constructed (open_writer ''w'') (open_world ''w'') \<and>
   CHR 0x00 \<notin> set ''a'' \<and> length (''a'' @ ''.npy'') \<le> 65535 \<and>
   (\<exists>\<sigma>'. write sample_encoder (open_writer ''w'') (open_world ''w'') ''a'' (RawBytes [1, 2]) =
           Inr (open_writer ''w'', \<sigma>') \<and>
         (\<exists>e. zf_filelist (heap \<sigma>' ! 0) = zf_filelist (heap (open_world ''w'') ! 0) @ [e] \<and>
              e_name e = ''a.npy''))"
proof -
  have c: "constructed (open_writer ''w'') (open_world ''w'')"
    by (simp add: constructed_def open_writer_def open_world_def)
  have w: "write sample_encoder (open_writer ''w'') (open_world ''w'') ''a'' (RawBytes [1, 2]) =
      Inr (open_writer ''w'', (open_world ''w'')\<lparr>heap := (heap (open_world ''w''))[0 := (heap (open_world ''w'') ! 0)
        \<lparr>zf_filelist := zf_filelist (heap (open_world ''w'') ! 0) @
            [\<lparr>e_name = ZipInfo_filename (''a'' @ ''.npy''), e_data = [0x93, 0x4E, 0x55, 0x4D, 0x50, 0x59, 1, 2], e_zip64 = True\<rparr>],
         zf_didModify := True\<rparr>]\<rparr>)"
    by (rule write_w_ok) (simp_all add: opened_example, simp_all add: open_writer_def open_world_def sample_encoder_def)
  have k: "CHR 0x00 \<notin> set ''a''" "length (''a'' @ ''.npy'') \<le> 65535"
    by simp_all
  from write_names_member_of_plain_key[OF c w k] c w k show ?thesis
    by (auto simp: open_writer_def)
qed





text \<open>
  C10. A writer that has been constructed and never opened: \<^verbatim>\<open>close()\<close> passes the
  guard (\<^verbatim>\<open>self.tofile\<close> is the path) and calls \<^verbatim>\<open>close\<close> on \<^verbatim>\<open>self.file\<close>, which is
  \<^verbatim>\<open>None\<close>. It raises \<^verbatim>\<open>AttributeError\<close> and changes nothing.
\<close>

theorem close_before_open_raises:
  "init p m c = Inr self \<Longrightarrow> close self \<sigma> = Inl (AttributeError ''close'', self, \<sigma>)"
  by (auto simp: init_def close_def split: if_splits)

theorem close_before_open_raises_witness:
  "init ''test.npz'' ''x'' False = Inr (new_writer ''x'') \<and>
   close (new_writer ''x'') fresh = Inl (AttributeError ''close'', new_writer ''x'', fresh)"
  using close_before_open_raises[of "''test.npz''" "''x''" False "new_writer ''x''" fresh]
  by (simp add: init_new_writer)

end
